theory Spec2Isabelle
  imports Main "HOL-Library.Sublist"
begin

section \<open>Strings\<close>

text \<open>
  A source string is a \<^typ>\<open>string\<close>. The characters of the model are ASCII code units:
  case conversion changes the letters a-z and A-Z only, white space is the ASCII part of
  what \<^verbatim>\<open>String.prototype.trim\<close> and the regular-expression class \<^verbatim>\<open>\s\<close> accept (tab, line
  feed, vertical tab, form feed, carriage return, space), and a line terminator, which the
  regular-expression dot refuses, is a line feed or a carriage return.
\<close>

definition isWhiteSpace :: "char \<Rightarrow> bool" where
  "isWhiteSpace c \<longleftrightarrow>
     c \<in> set [CHR 0x09, CHR 0x0A, CHR 0x0B, CHR 0x0C, CHR 0x0D, CHR 0x20]"

definition isLineTerminator :: "char \<Rightarrow> bool" where
  "isLineTerminator c \<longleftrightarrow> c = CHR 0x0A \<or> c = CHR 0x0D"

definition isDigit :: "char \<Rightarrow> bool" where
  "isDigit c \<longleftrightarrow> c \<in> set ''0123456789''"

definition trim :: "string \<Rightarrow> string" where
  "trim s = rev (dropWhile isWhiteSpace (rev (dropWhile isWhiteSpace s)))"

definition lowerLetters :: string where
  "lowerLetters = ''abcdefghijklmnopqrstuvwxyz''"

definition upperLetters :: string where
  "upperLetters = ''ABCDEFGHIJKLMNOPQRSTUVWXYZ''"

definition toUpperCaseChar :: "char \<Rightarrow> char" where
  "toUpperCaseChar c =
     (case map_of (zip lowerLetters upperLetters) c of Some u \<Rightarrow> u | None \<Rightarrow> c)"

definition toLowerCaseChar :: "char \<Rightarrow> char" where
  "toLowerCaseChar c =
     (case map_of (zip upperLetters lowerLetters) c of Some l \<Rightarrow> l | None \<Rightarrow> c)"

definition toUpperCase :: "string \<Rightarrow> string" where
  "toUpperCase s = map toUpperCaseChar s"

definition toLowerCase :: "string \<Rightarrow> string" where
  "toLowerCase s = map toLowerCaseChar s"

text \<open>\<^verbatim>\<open>s.startsWith(p)\<close>, \<^verbatim>\<open>s.endsWith(p)\<close> and \<^verbatim>\<open>s.includes(p)\<close>.\<close>

fun startsWith :: "string \<Rightarrow> string \<Rightarrow> bool" where
  "startsWith s [] = True"
| "startsWith [] (p # ps) = False"
| "startsWith (c # cs) (p # ps) = (c = p \<and> startsWith cs ps)"

definition endsWith :: "string \<Rightarrow> string \<Rightarrow> bool" where
  "endsWith s p = startsWith (rev s) (rev p)"

fun includesStr :: "string \<Rightarrow> string \<Rightarrow> bool" where
  "includesStr [] p = (p = [])"
| "includesStr (c # cs) p = (startsWith (c # cs) p \<or> includesStr cs p)"

text \<open>\<^verbatim>\<open>xs.join(sep)\<close> on an array of strings.\<close>

fun join :: "string \<Rightarrow> string list \<Rightarrow> string" where
  "join sep [] = []"
| "join sep [x] = x"
| "join sep (x # y # ys) = x @ sep @ join sep (y # ys)"

subsection \<open>Numbers\<close>

text \<open>
  A source number is an \<^typ>\<open>int\<close>: the model covers the integer values whose decimal
  rendering the source prints digit by digit (magnitude below \<open>2 ^ 53\<close>). \<open>numberToString\<close>
  is the conversion a template literal applies, \<open>parseInt10\<close> is \<^verbatim>\<open>parseInt(ds, 10)\<close> on a
  string of decimal digits.
\<close>

definition digitChar :: "nat \<Rightarrow> char" where
  "digitChar n = ''0123456789'' ! (n mod 10)"

fun natToString :: "nat \<Rightarrow> string" where
  "natToString n =
     (if n < 10 then [digitChar n] else natToString (n div 10) @ [digitChar n])"

declare natToString.simps [simp del]

definition numberToString :: "int \<Rightarrow> string" where
  "numberToString i = (if i < 0 then ''-'' @ natToString (nat (- i)) else natToString (nat i))"

definition digitValue :: "char \<Rightarrow> nat" where
  "digitValue c = of_char c - 48"

definition parseInt10 :: "string \<Rightarrow> nat" where
  "parseInt10 ds = foldl (\<lambda>a c. 10 * a + digitValue c) 0 ds"

subsection \<open>Regular-expression search\<close>

text \<open>
  A regular expression is tried at every start position from left to right, the empty
  position at the end included; \<open>search m s\<close> returns the text before the first position
  where the matcher \<open>m\<close> succeeds, with what the matcher returns there.
\<close>

fun search :: "(string \<Rightarrow> 'a option) \<Rightarrow> string \<Rightarrow> (string \<times> 'a) option" where
  "search m [] = map_option (Pair []) (m [])"
| "search m (c # cs) =
     (case m (c # cs) of
        Some r \<Rightarrow> Some ([], r)
      | None \<Rightarrow> map_option (\<lambda>(b, r). (c # b, r)) (search m cs))"

text \<open>
  A literal pattern, without and with the flag \<^verbatim>\<open>i\<close>: the match and the text after it. With
  the flag, a character of the text matches a character of the pattern when both have the
  same uppercase form.
\<close>

definition matchLiteral :: "string \<Rightarrow> string \<Rightarrow> (string \<times> string) option" where
  "matchLiteral p s =
     (if startsWith s p then Some (take (length p) s, drop (length p) s) else None)"

fun startsWithCI :: "string \<Rightarrow> string \<Rightarrow> bool" where
  "startsWithCI s [] = True"
| "startsWithCI [] (p # ps) = False"
| "startsWithCI (c # cs) (p # ps) =
     (if toUpperCaseChar c = toUpperCaseChar p then startsWithCI cs ps else False)"

definition matchLiteralCI :: "string \<Rightarrow> string \<Rightarrow> (string \<times> string) option" where
  "matchLiteralCI p s =
     (if startsWithCI s p then Some (take (length p) s, drop (length p) s) else None)"

definition testCI :: "string \<Rightarrow> string \<Rightarrow> bool" where
  "testCI p s \<longleftrightarrow> search (matchLiteralCI p) s \<noteq> None"

text \<open>
  Every match of a pattern with the flag \<^verbatim>\<open>g\<close>, from left to right: the search resumes
  after the text of the last match, one character further after an empty match.
\<close>

function matchAll :: "(string \<Rightarrow> (string \<times> 'a) option) \<Rightarrow> string \<Rightarrow> string list" where
  "matchAll m s =
     (case search m s of
        None \<Rightarrow> []
      | Some (b, (mt, r)) \<Rightarrow>
          mt # (if s = [] then [] else matchAll m (drop (length b + max 1 (length mt)) s)))"
  by pat_completeness auto
termination
  by (relation "measure (\<lambda>(m, s). length s)") (auto simp: max_def intro: diff_less)

declare matchAll.simps [simp del]

text \<open>
  The replacement text of \<^verbatim>\<open>String.prototype.replace\<close> for a pattern without capture
  groups: \<^verbatim>\<open>$$\<close> is a dollar sign, \<^verbatim>\<open>$&\<close> the match, \<^verbatim>\<open>$`\<close> the text before the match and
  \<^verbatim>\<open>$'\<close> the text after it; every other character stands for itself.
\<close>

fun getSubstitution :: "string \<Rightarrow> string \<Rightarrow> string \<Rightarrow> string \<Rightarrow> string" where
  "getSubstitution mt b a [] = []"
| "getSubstitution mt b a [c] = [c]"
| "getSubstitution mt b a (c # d # r) =
     (if c = CHR ''$'' \<and> d = CHR ''$'' then CHR ''$'' # getSubstitution mt b a r
      else if c = CHR ''$'' \<and> d = CHR ''&'' then mt @ getSubstitution mt b a r
      else if c = CHR ''$'' \<and> d = CHR 0x60 then b @ getSubstitution mt b a r
      else if c = CHR ''$'' \<and> d = CHR 0x27 then a @ getSubstitution mt b a r
      else c # getSubstitution mt b a (d # r))"

text \<open>\<^verbatim>\<open>s.replace(/p/i, template)\<close> for a literal \<open>p\<close>: the first match only.\<close>

definition replaceFirstCI :: "string \<Rightarrow> string \<Rightarrow> string \<Rightarrow> string" where
  "replaceFirstCI p template s =
     (case search (matchLiteralCI p) s of
        None \<Rightarrow> s
      | Some (b, (mt, a)) \<Rightarrow> b @ getSubstitution mt b a template @ a)"

section \<open>QuerySanitizer\<close>

text \<open>
  \<^verbatim>\<open>/```sql\n([\s\S]*?)```/\<close> and \<^verbatim>\<open>/```\n([\s\S]*?)```/\<close> at one start position: the opening
  text, then the shortest text that a closing fence follows; the result is group 1.
\<close>

definition matchBlock :: "string \<Rightarrow> string \<Rightarrow> string option" where
  "matchBlock opening s =
     (case matchLiteral opening s of
        None \<Rightarrow> None
      | Some (_, r) \<Rightarrow> map_option fst (search (matchLiteral ''```'') r))"

definition extractFromMarkdown :: "string \<Rightarrow> string" where
  "extractFromMarkdown text =
     (case search (matchBlock (''```sql'' @ [CHR 0x0A])) text of
        Some (_, body) \<Rightarrow> trim body
      | None \<Rightarrow>
          (case search (matchBlock (''```'' @ [CHR 0x0A])) text of
             Some (_, body) \<Rightarrow> trim body
           | None \<Rightarrow> text))"

text \<open>The result of \<open>validateSQLSyntax\<close>: \<^verbatim>\<open>{ valid: true }\<close> or \<^verbatim>\<open>{ valid: false, error }\<close>.\<close>

datatype SyntaxResult = Valid | Invalid string

definition validStarts :: "string list" where
  "validStarts = [''SELECT'', ''INSERT'', ''UPDATE'', ''DELETE'', ''WITH'']"

text \<open>The loop over the characters of the query; \<open>None\<close> is the return inside the loop.\<close>

fun parenScan :: "int \<Rightarrow> string \<Rightarrow> int option" where
  "parenScan parenCount [] = Some parenCount"
| "parenScan parenCount (c # cs) =
     (let n1 = (if c = CHR ''('' then parenCount + 1 else parenCount);
          n2 = (if c = CHR '')'' then n1 - 1 else n1)
      in if n2 < 0 then None else parenScan n2 cs)"

definition countChar :: "char \<Rightarrow> string \<Rightarrow> nat" where
  "countChar c s = length (filter (\<lambda>x. x = c) s)"

definition validateSQLSyntax :: "string \<Rightarrow> SyntaxResult" where
  "validateSQLSyntax query =
     (let trimmed = toUpperCase (trim query);
          isValidStart = list_ex (\<lambda>keyword. startsWith trimmed keyword) validStarts
      in if \<not> isValidStart
         then Invalid (''Query must start with one of: '' @ join '', '' validStarts)
         else (case parenScan 0 query of
                 None \<Rightarrow> Invalid ''Unbalanced parentheses''
               | Some parenCount \<Rightarrow>
                   if parenCount \<noteq> 0 then Invalid ''Unbalanced parentheses''
                   else if countChar (CHR 0x27) query mod 2 \<noteq> 0
                     then Invalid ''Unbalanced single quotes''
                   else if countChar (CHR 0x22) query mod 2 \<noteq> 0
                     then Invalid ''Unbalanced double quotes''
                   else Valid))"

definition escapeValue :: "string \<Rightarrow> string" where
  "escapeValue v = concat (map (\<lambda>c. if c = CHR 0x27 then [c, c] else [c]) v)"

text \<open>\<^verbatim>\<open>/LIMIT\s+(\d+)/i\<close> at one start position: group 1, the digits.\<close>

definition matchLimit :: "string \<Rightarrow> string option" where
  "matchLimit s =
     (case matchLiteralCI ''LIMIT'' s of
        None \<Rightarrow> None
      | Some (_, r) \<Rightarrow>
          (let ds = takeWhile isDigit (dropWhile isWhiteSpace r)
           in if takeWhile isWhiteSpace r \<noteq> [] \<and> ds \<noteq> [] then Some ds else None))"

definition addLimitIfMissing :: "string \<Rightarrow> int \<Rightarrow> string" where
  "addLimitIfMissing query limit =
     (if search matchLimit query = None
      then query @ '' LIMIT '' @ numberToString limit
      else query)"

section \<open>QueryGenerator\<close>

datatype Complexity = Low | Medium | High

text \<open>\<^verbatim>\<open>/select[\s\S]*select/i\<close> at one start position.\<close>

definition matchSelectSelect :: "string \<Rightarrow> unit option" where
  "matchSelectSelect s =
     (case matchLiteralCI ''select'' s of
        None \<Rightarrow> None
      | Some (_, r) \<Rightarrow> if testCI ''select'' r then Some () else None)"

definition estimateComplexity :: "string \<Rightarrow> Complexity" where
  "estimateComplexity query =
     (let normalized = toLowerCase query;
          c0 = (0 :: nat);
          c1 = (if includesStr normalized ''join'' then c0 + 1 else c0);
          c2 = (if includesStr normalized ''subquery'' \<or> search matchSelectSelect query \<noteq> None
                then c1 + 2 else c1);
          c3 = (if includesStr normalized ''group by'' then c2 + 1 else c2);
          c4 = (if includesStr normalized ''having'' then c3 + 1 else c3);
          c5 = (if includesStr normalized ''union'' then c4 + 2 else c4);
          complexity = (if length (matchAll (matchLiteral ''join'') normalized) > 2
                        then c5 + 2 else c5)
      in if complexity = 0 then Low else if complexity \<le> 2 then Medium else High)"

section \<open>SecurityValidator\<close>

subsection \<open>Types\<close>

datatype QueryOperation = SELECT | INSERT | UPDATE | DELETE

fun operationName :: "QueryOperation \<Rightarrow> string" where
  "operationName SELECT = ''SELECT''"
| "operationName INSERT = ''INSERT''"
| "operationName UPDATE = ''UPDATE''"
| "operationName DELETE = ''DELETE''"

text \<open>\<^verbatim>\<open>userId: string | number\<close>; the field \<^verbatim>\<open>metadata\<close>, which no function reads, is left out.\<close>

datatype UserId = StringId string | NumberId int

record UserContext =
  userId :: UserId
  role :: string
  permissions :: "string list option"

text \<open>
  What the custom validator does when it is awaited: its promise resolves with a boolean, or
  it throws (or its promise rejects with) a value. Of a thrown value the code reads the
  property \<^verbatim>\<open>message\<close> inside a template literal: \<open>Thrown m\<close> is a value for which that
  reading gives the text \<open>m\<close> (\<^verbatim>\<open>undefined\<close> for a value without the property),
  \<open>ThrownNullish\<close> is \<^verbatim>\<open>null\<close> or \<^verbatim>\<open>undefined\<close>, of which no property can be read.
\<close>

datatype thrown = Thrown string | ThrownNullish

datatype outcome = Resolves bool | Rejects thrown

text \<open>
  An optional property of an object: the key is absent, or present with the value
  \<^verbatim>\<open>undefined\<close>, or present with a value. Reading the property gives \<^verbatim>\<open>undefined\<close>
  (\<open>None\<close>) in the first two cases.
\<close>

datatype 'a field = Absent | Undefined | Value 'a

fun getField :: "'a field \<Rightarrow> 'a option" where
  "getField Absent = None"
| "getField Undefined = None"
| "getField (Value v) = Some v"

record SecurityConfig =
  allowedOperations :: "QueryOperation list field"
  allowedTables :: "string list field"
  restrictedColumns :: "string list field"
  maxRowLimit :: "int field"
  requireUserContext :: "bool field"
  enableRowLevelSecurity :: "bool field"
  customValidator :: "(string \<Rightarrow> UserContext option \<Rightarrow> outcome) field"

record ValidationResult =
  valid :: bool
  errors :: "string list"
  warnings :: "string list"

datatype fault = TypeError

subsection \<open>The constructor\<close>

text \<open>
  An object spread copies every key that is present, whatever its value. The only state of
  a validator is its configuration, so the constructor returns the configuration it stores;
  its argument is \<open>None\<close> when the caller passes none, and the default \<^verbatim>\<open>{}\<close> is taken.
\<close>

definition spread :: "'a field \<Rightarrow> 'a field \<Rightarrow> 'a field" where
  "spread d c = (case c of Absent \<Rightarrow> d | _ \<Rightarrow> c)"

definition emptyConfig :: SecurityConfig where
  "emptyConfig =
     \<lparr> allowedOperations = Absent, allowedTables = Absent, restrictedColumns = Absent,
       maxRowLimit = Absent, requireUserContext = Absent, enableRowLevelSecurity = Absent,
       customValidator = Absent \<rparr>"

definition SecurityValidator :: "SecurityConfig option \<Rightarrow> SecurityConfig" where
  "SecurityValidator arg =
     (let config = (case arg of None \<Rightarrow> emptyConfig | Some c \<Rightarrow> c)
      in \<lparr> allowedOperations = spread (Value [SELECT]) (allowedOperations config),
           allowedTables = spread (Value []) (allowedTables config),
           restrictedColumns = spread (Value []) (restrictedColumns config),
           maxRowLimit = spread (Value 1000) (maxRowLimit config),
           requireUserContext = spread (Value True) (requireUserContext config),
           enableRowLevelSecurity = spread (Value True) (enableRowLevelSecurity config),
           customValidator = spread Absent (customValidator config) \<rparr>)"

subsection \<open>The private helpers\<close>

definition detectOperation :: "string \<Rightarrow> QueryOperation option" where
  "detectOperation query =
     (let normalizedQuery = toUpperCase (trim query)
      in if startsWith normalizedQuery ''SELECT'' then Some SELECT
         else if startsWith normalizedQuery ''INSERT'' then Some INSERT
         else if startsWith normalizedQuery ''UPDATE'' then Some UPDATE
         else if startsWith normalizedQuery ''DELETE'' then Some DELETE
         else None)"

text \<open>
  The regular expressions that the code builds: a literal text, or two literal texts with
  \<^verbatim>\<open>.*\<close> between them, all with the flag \<^verbatim>\<open>i\<close>.
\<close>

datatype pattern = Literal string | DotStar string string

definition matchDotStarCI :: "string \<Rightarrow> string \<Rightarrow> string \<Rightarrow> unit option" where
  "matchDotStarCI a b s =
     (case matchLiteralCI a s of
        None \<Rightarrow> None
      | Some (_, r) \<Rightarrow>
          if testCI b (takeWhile (\<lambda>c. \<not> isLineTerminator c) r) then Some () else None)"

fun regexTestCI :: "pattern \<Rightarrow> string \<Rightarrow> bool" where
  "regexTestCI (Literal p) s = testCI p s"
| "regexTestCI (DotStar a b) s = (search (matchDotStarCI a b) s \<noteq> None)"

text \<open>
  Each entry is the text in the array \<^verbatim>\<open>commandPatterns\<close> with the regular expression
  that \<^verbatim>\<open>new RegExp(pattern, 'i')\<close> makes of it.
\<close>

definition commandPatterns :: "(string \<times> pattern) list" where
  "commandPatterns =
     [(''EXEC'', Literal ''EXEC''),
      (''EXECUTE'', Literal ''EXECUTE''),
      (''xp_cmdshell'', Literal ''xp_cmdshell''),
      (''sp_executesql'', Literal ''sp_executesql''),
      (''UNION.*SELECT'', DotStar ''UNION'' ''SELECT''),
      (''--'', Literal ''--''),
      ([CHR 0x5C, CHR ''/'', CHR 0x5C, CHR ''*''], Literal ''/*''),
      (''DROP'', Literal ''DROP''),
      (''TRUNCATE'', Literal ''TRUNCATE''),
      (''ALTER'', Literal ''ALTER''),
      (''CREATE'', Literal ''CREATE''),
      (''GRANT'', Literal ''GRANT''),
      (''REVOKE'', Literal ''REVOKE'')]"

definition detectDangerousPatterns :: "string \<Rightarrow> string list" where
  "detectDangerousPatterns query =
     (let normalizedQuery = toUpperCase query;
          dangerous = (if includesStr query '';'' \<and> \<not> endsWith (trim query) '';''
                       then [''Multiple statements detected''] else [])
      in dangerous @
         map (\<lambda>(src, re). if src = [CHR 0x5C, CHR ''/'', CHR 0x5C, CHR ''*''] then ''/*'' else src)
           (filter (\<lambda>(src, re). regexTestCI re normalizedQuery) commandPatterns))"

definition findRestrictedColumns :: "SecurityConfig \<Rightarrow> string \<Rightarrow> string list" where
  "findRestrictedColumns cfg query =
     (case getField (restrictedColumns cfg) of
        None \<Rightarrow> []
      | Some columns \<Rightarrow>
          filter (\<lambda>column. includesStr (toLowerCase query) (toLowerCase column)) columns)"

text \<open>
  \<^verbatim>\<open>/kw\s+/i\<close> and \<^verbatim>\<open>/kw\s+([a-z_][a-z0-9_]*)/i\<close> at one start position. The first gives the
  match and the text after it, the second the match and group 1.
\<close>

definition isIdentStart :: "char \<Rightarrow> bool" where
  "isIdentStart c \<longleftrightarrow> c \<in> set lowerLetters \<or> c \<in> set upperLetters \<or> c = CHR ''_''"

definition isIdentChar :: "char \<Rightarrow> bool" where
  "isIdentChar c \<longleftrightarrow> isIdentStart c \<or> isDigit c"

definition matchKeywordSpace :: "string \<Rightarrow> string \<Rightarrow> (string \<times> string) option" where
  "matchKeywordSpace kw s =
     (case matchLiteralCI kw s of
        None \<Rightarrow> None
      | Some (k, r) \<Rightarrow>
          if takeWhile isWhiteSpace r = [] then None
          else Some (k @ takeWhile isWhiteSpace r, dropWhile isWhiteSpace r))"

definition matchTableRef :: "string \<Rightarrow> string \<Rightarrow> (string \<times> string) option" where
  "matchTableRef kw s =
     (case matchKeywordSpace kw s of
        None \<Rightarrow> None
      | Some (k, r) \<Rightarrow>
          (case r of
             [] \<Rightarrow> None
           | c # cs \<Rightarrow>
               if isIdentStart c
               then Some (k @ c # takeWhile isIdentChar cs, c # takeWhile isIdentChar cs)
               else None))"

text \<open>\<^verbatim>\<open>match.replace(/kw\s+/i, '')\<close>, and the order-keeping \<^verbatim>\<open>[...new Set(tables)]\<close>.\<close>

definition removeKeywordSpace :: "string \<Rightarrow> string \<Rightarrow> string" where
  "removeKeywordSpace kw s =
     (case search (matchKeywordSpace kw) s of None \<Rightarrow> s | Some (b, (_, r)) \<Rightarrow> b @ r)"

definition unique :: "string list \<Rightarrow> string list" where
  "unique xs = rev (remdups (rev xs))"

definition extractTableNames :: "string \<Rightarrow> string list" where
  "extractTableNames query =
     (let normalizedQuery = toLowerCase query;
          fromTables = map (\<lambda>mt. trim (removeKeywordSpace ''from'' mt))
                         (matchAll (matchTableRef ''from'') normalizedQuery);
          joinTables = map (\<lambda>mt. trim (removeKeywordSpace ''join'' mt))
                         (matchAll (matchTableRef ''join'') normalizedQuery);
          intoTables = (case search (matchTableRef ''into'') normalizedQuery of
                          None \<Rightarrow> [] | Some (_, (_, g)) \<Rightarrow> [trim g]);
          updateTables = (case search (matchTableRef ''update'') normalizedQuery of
                            None \<Rightarrow> [] | Some (_, (_, g)) \<Rightarrow> [trim g])
      in unique (fromTables @ joinTables @ intoTables @ updateTables))"

subsection \<open>validate\<close>

text \<open>
  The checks of \<open>validate\<close> after the operation is known, one definition for each block of
  the method, in the order of the code; each gives the errors (and warnings) that the block
  pushes. A number in a template literal is printed by \<open>numberToString\<close>, and
  \<^verbatim>\<open>undefined\<close> as that word.
\<close>

definition operationCheck :: "SecurityConfig \<Rightarrow> QueryOperation \<Rightarrow> string list" where
  "operationCheck cfg operation =
     (case getField (allowedOperations cfg) of
        None \<Rightarrow> []
      | Some allowed \<Rightarrow>
          if operation \<in> set allowed then []
          else [''Operation '' @ operationName operation
                @ '' is not allowed. Allowed operations: ''
                @ join '', '' (map operationName allowed)])"

definition dangerousCheck :: "string \<Rightarrow> string list" where
  "dangerousCheck query =
     (let dangerousPatterns = detectDangerousPatterns query
      in if length dangerousPatterns > 0
         then [''Query contains dangerous patterns: '' @ join '', '' dangerousPatterns]
         else [])"

definition restrictedCheck :: "SecurityConfig \<Rightarrow> string \<Rightarrow> string list" where
  "restrictedCheck cfg query =
     (case getField (restrictedColumns cfg) of
        None \<Rightarrow> []
      | Some _ \<Rightarrow>
          (let foundRestrictedColumns = findRestrictedColumns cfg query
           in if length foundRestrictedColumns > 0
              then [''Query accesses restricted columns: '' @ join '', '' foundRestrictedColumns]
              else []))"

definition tableCheck :: "SecurityConfig \<Rightarrow> string \<Rightarrow> string list" where
  "tableCheck cfg query =
     (case getField (allowedTables cfg) of
        None \<Rightarrow> []
      | Some allowed \<Rightarrow>
          if length allowed > 0
          then (let tables = extractTableNames query;
                    unauthorizedTables = filter (\<lambda>table. table \<notin> set allowed) tables
                in if length unauthorizedTables > 0
                   then [''Query accesses unauthorized tables: ''
                         @ join '', '' unauthorizedTables]
                   else [])
          else [])"

definition printLimit :: "int option \<Rightarrow> string" where
  "printLimit m = (case m of None \<Rightarrow> ''undefined'' | Some n \<Rightarrow> numberToString n)"

definition rowLimitCheck ::
  "SecurityConfig \<Rightarrow> QueryOperation \<Rightarrow> string \<Rightarrow> string list \<times> string list" where
  "rowLimitCheck cfg operation query =
     (if operation = SELECT
      then (case search matchLimit query of
              None \<Rightarrow>
                ([], [''Query does not have a LIMIT clause. Maximum ''
                      @ printLimit (getField (maxRowLimit cfg))
                      @ '' rows will be enforced.''])
            | Some (_, ds) \<Rightarrow>
                (let limit = int (parseInt10 ds)
                 in case getField (maxRowLimit cfg) of
                      None \<Rightarrow> ([], [])
                    | Some m \<Rightarrow>
                        if limit > m
                        then ([''LIMIT '' @ numberToString limit
                               @ '' exceeds maximum allowed limit of '' @ numberToString m], [])
                        else ([], [])))
      else ([], []))"

text \<open>
  The block of the custom validator on the errors so far: the new errors, or the fault that
  leaves \<open>validate\<close> when the handler reads \<^verbatim>\<open>error.message\<close> of \<^verbatim>\<open>null\<close> or \<^verbatim>\<open>undefined\<close>; and
  the calls made of the validator, with their arguments.
\<close>

definition customCheck ::
  "SecurityConfig \<Rightarrow> string \<Rightarrow> UserContext option \<Rightarrow>
     (fault + string list) \<times> (string \<times> UserContext option) list" where
  "customCheck cfg query userContext =
     (case getField (customValidator cfg) of
        None \<Rightarrow> (Inr [], [])
      | Some cv \<Rightarrow>
          (case cv query userContext of
             Resolves customValid \<Rightarrow>
               (Inr (if \<not> customValid then [''Custom validation failed''] else []),
                [(query, userContext)])
           | Rejects (Thrown m) \<Rightarrow>
               (Inr [''Custom validation error: '' @ m], [(query, userContext)])
           | Rejects ThrownNullish \<Rightarrow>
               (Inl TypeError, [(query, userContext)])))"

text \<open>
  \<open>validate_run\<close> is the method \<open>validate\<close> with the calls it makes of the custom validator;
  \<open>validate\<close> is its result: the object returned, or the fault that rejects the promise.
\<close>

definition validate_run ::
  "SecurityConfig \<Rightarrow> string \<Rightarrow> UserContext option \<Rightarrow>
     (fault + ValidationResult) \<times> (string \<times> UserContext option) list" where
  "validate_run cfg query userContext =
     (if getField (requireUserContext cfg) = Some True \<and> userContext = None
      then (Inr \<lparr> valid = False,
                  errors = [''User context is required but not provided''],
                  warnings = [] \<rparr>, [])
      else (case detectOperation query of
              None \<Rightarrow>
                (Inr \<lparr> valid = False,
                       errors = [''Could not determine query operation''],
                       warnings = [] \<rparr>, [])
            | Some operation \<Rightarrow>
                (let (limitErrors, ws) = rowLimitCheck cfg operation query;
                     es = operationCheck cfg operation @ dangerousCheck query
                          @ restrictedCheck cfg query @ tableCheck cfg query @ limitErrors
                 in case customCheck cfg query userContext of
                      (Inl f, calls) \<Rightarrow> (Inl f, calls)
                    | (Inr customErrors, calls) \<Rightarrow>
                        (Inr \<lparr> valid = (length (es @ customErrors) = 0),
                               errors = es @ customErrors,
                               warnings = ws \<rparr>, calls))))"

definition validate ::
  "SecurityConfig \<Rightarrow> string \<Rightarrow> UserContext option \<Rightarrow> fault + ValidationResult" where
  "validate cfg query userContext = fst (validate_run cfg query userContext)"

subsection \<open>addRowLevelSecurity\<close>

definition addRowLevelSecurity ::
  "SecurityConfig \<Rightarrow> string \<Rightarrow> UserContext option \<Rightarrow> string" where
  "addRowLevelSecurity cfg query userContext =
     (case userContext of
        None \<Rightarrow> query
      | Some u \<Rightarrow>
          if getField (enableRowLevelSecurity cfg) \<noteq> Some True then query
          else (let operation = detectOperation query
                in if operation \<noteq> Some SELECT \<and> operation \<noteq> Some UPDATE
                      \<and> operation \<noteq> Some DELETE
                   then query
                   else if \<not> regexTestCI (DotStar ''WHERE'' ''user_id'') query
                   then (let hasWhere = testCI ''WHERE'' query;
                             connector = (if hasWhere then '' AND'' else '' WHERE'');
                             userIdFilter = connector @ '' user_id = ''
                               @ (case userId u of
                                    StringId v \<Rightarrow> [CHR 0x27] @ v @ [CHR 0x27]
                                  | NumberId n \<Rightarrow> numberToString n)
                         in if testCI ''ORDER BY'' query
                            then replaceFirstCI ''ORDER BY'' (userIdFilter @ '' ORDER BY'') query
                            else if testCI ''LIMIT'' query
                            then replaceFirstCI ''LIMIT'' (userIdFilter @ '' LIMIT'') query
                            else query @ userIdFilter)
                   else query))"

section \<open>Notions used to state the properties\<close>


text \<open>
  The conditions of \<open>validateSQLSyntax\<close> in the words of the specification: the
  uppercased, trimmed query begins with one of the five keywords; the running count of
  parentheses (opening minus closing) is negative after no prefix of the query and zero at
  its end.
\<close>

definition validStart :: "string \<Rightarrow> bool" where
  "validStart query \<longleftrightarrow>
     list_ex (\<lambda>keyword. prefix keyword (toUpperCase (trim query)))
       [''SELECT'', ''INSERT'', ''UPDATE'', ''DELETE'', ''WITH'']"

definition parenDepth :: "string \<Rightarrow> int" where
  "parenDepth s = int (countChar (CHR ''('') s) - int (countChar (CHR '')'') s)"

definition balancedParens :: "string \<Rightarrow> bool" where
  "balancedParens s \<longleftrightarrow>
     list_all (\<lambda>k. 0 \<le> parenDepth (take k s)) [0..<Suc (length s)] \<and> parenDepth s = 0"

text \<open>
  The text contains SELECT twice, in any case of the letters, the second after the end of
  the first: what \<^verbatim>\<open>/select[\s\S]*select/i\<close> looks for.
\<close>

definition twoSelects :: "string \<Rightarrow> bool" where
  "twoSelects query \<longleftrightarrow>
     (\<exists>a s1 b s2 c. query = a @ s1 @ b @ s2 @ c
        \<and> toUpperCase s1 = ''SELECT'' \<and> toUpperCase s2 = ''SELECT'')"

text \<open>
  Fenced blocks, for a given opening text: a block starts at the beginning of \<open>t\<close> when \<open>t\<close>
  is the opening, any text and a closing fence, followed by anything; a text has a block
  when a block starts somewhere in it; \<open>body\<close> is the interior of the first block of a text
  when the text is some \<open>a\<close>, the opening, \<open>body\<close>, a closing fence and some \<open>c\<close>, no block
  starts before the end of \<open>a\<close>, and no closing fence starts inside \<open>body\<close>.
\<close>

definition blockAt :: "string \<Rightarrow> string \<Rightarrow> bool" where
  "blockAt opening t \<longleftrightarrow> (\<exists>b c. t = opening @ b @ ''```'' @ c)"

definition hasBlock :: "string \<Rightarrow> string \<Rightarrow> bool" where
  "hasBlock opening text \<longleftrightarrow> (\<exists>a t. text = a @ t \<and> blockAt opening t)"

definition firstBlock :: "string \<Rightarrow> string \<Rightarrow> string \<Rightarrow> bool" where
  "firstBlock opening text body \<longleftrightarrow>
     (\<exists>a c. text = a @ opening @ body @ ''```'' @ c
        \<and> (\<forall>i < length a. \<not> blockAt opening (drop i text))
        \<and> (\<forall>i < length body. \<not> prefix ''```'' (drop i (body @ ''```'' @ c))))"

text \<open>The number of positions of a text at which a pattern occurs.\<close>

fun occurrences :: "string \<Rightarrow> string \<Rightarrow> nat" where
  "occurrences p [] = (if p = [] then 1 else 0)"
| "occurrences p (c # cs) = (if prefix p (c # cs) then 1 else 0) + occurrences p cs"

section \<open>Properties\<close>

subsection \<open>Auxiliary facts about strings and search\<close>

lemma startsWith_prefix: "startsWith s p \<longleftrightarrow> prefix p s"
  by (induction s p rule: startsWith.induct) auto

lemma includesStr_sublist: "includesStr s p \<longleftrightarrow> sublist p s"
  by (induction s) (simp_all add: startsWith_prefix sublist_Cons_right)

text \<open>
  The search fails exactly when the matcher fails at every position; when it succeeds, the
  text before the match is the shortest one after which the matcher succeeds.
\<close>

lemma search_None_iff: "search m s = None \<longleftrightarrow> (\<forall>t. suffix t s \<longrightarrow> m t = None)"
proof (induction s)
  case Nil
  then show ?case by simp
next
  case (Cons c cs)
  then show ?case
    by (auto simp add: suffix_Cons split: option.splits)
qed

lemma search_found: "m t \<noteq> None \<Longrightarrow> search m (a @ t) \<noteq> None"
  by (simp add: search_None_iff suffix_def) blast

lemma search_SomeD:
  assumes "search m s = Some (b, r)"
  shows "\<exists>t. s = b @ t \<and> m t = Some r \<and> (\<forall>i < length b. m (drop i s) = None)"
  using assms
proof (induction s arbitrary: b)
  case Nil
  then show ?case by auto
next
  case (Cons c cs)
  show ?case
  proof (cases "m (c # cs)")
    case None
    with Cons.prems obtain b' where b: "b = c # b'" and s: "search m cs = Some (b', r)"
      by auto
    from Cons.IH [OF s] obtain t where
      t: "cs = b' @ t" "m t = Some r" "\<forall>i < length b'. m (drop i cs) = None"
      by blast
    have "m (drop i (c # cs)) = None" if "i < length b" for i
      using that None t(3) b by (cases i) auto
    with t b show ?thesis by auto
  next
    case (Some r')
    with Cons.prems show ?thesis by auto
  qed
qed

lemma search_SomeI:
  assumes "m t = Some r" and "\<forall>i < length b. m (drop i (b @ t)) = None"
  shows "search m (b @ t) = Some (b, r)"
  using assms
proof (induction b)
  case Nil
  then show ?case by (cases t) auto
next
  case (Cons c b)
  from Cons.prems(2) have first: "m (c # b @ t) = None"
    by auto
  from Cons.prems(2) have "\<forall>i < length b. m (drop i (b @ t)) = None"
    by fastforce
  with Cons.IH Cons.prems(1) have "search m (b @ t) = Some (b, r)"
    by blast
  with first show ?case by simp
qed

lemma matchLiteral_Some: "matchLiteral p s = Some (m, r) \<longleftrightarrow> m = p \<and> s = p @ r"
  by (auto simp add: matchLiteral_def startsWith_prefix prefix_def)

lemma matchLiteral_None: "matchLiteral p s = None \<longleftrightarrow> \<not> prefix p s"
  by (simp add: matchLiteral_def startsWith_prefix)

lemma search_literal_None:
  "search (matchLiteral p) r = None \<longleftrightarrow> \<not> (\<exists>b c. r = b @ p @ c)"
  by (auto simp add: search_None_iff matchLiteral_None suffix_def prefix_def)

lemma natToString_digit: "natToString n \<noteq> [] \<and> isDigit (hd (natToString n))"
proof (induction n rule: natToString.induct)
  case (1 n)
  show ?case
  proof (cases "n < 10")
    case True
    then have "n \<in> {0, 1, 2, 3, 4, 5, 6, 7, 8, 9}"
      by auto
    then show ?thesis
      by (auto simp add: natToString.simps [of n] digitChar_def isDigit_def)
  next
    case False
    with 1 show ?thesis
      by (simp add: natToString.simps [of n])
  qed
qed

lemma digit_not_space: "isDigit d \<Longrightarrow> \<not> isWhiteSpace d"
  by (auto simp add: isDigit_def isWhiteSpace_def)

lemma startsWithCI_iff:
  "startsWithCI t p \<longleftrightarrow> (\<exists>s r. t = s @ r \<and> toUpperCase s = toUpperCase p)"
proof (induction t p rule: startsWithCI.induct)
  case (1 s)
  then show ?case by (auto simp add: toUpperCase_def)
next
  case (2 p ps)
  then show ?case by (auto simp add: toUpperCase_def)
next
  case (3 c cs p ps)
  show ?case
  proof
    assume "startsWithCI (c # cs) (p # ps)"
    with 3 obtain s r where "toUpperCaseChar c = toUpperCaseChar p" "cs = s @ r"
      "toUpperCase s = toUpperCase ps"
      by (auto split: if_splits)
    then have "c # cs = (c # s) @ r \<and> toUpperCase (c # s) = toUpperCase (p # ps)"
      by (simp add: toUpperCase_def)
    then show "\<exists>s r. c # cs = s @ r \<and> toUpperCase s = toUpperCase (p # ps)"
      by blast
  next
    assume "\<exists>s r. c # cs = s @ r \<and> toUpperCase s = toUpperCase (p # ps)"
    then obtain s r where sr: "c # cs = s @ r" "toUpperCase s = toUpperCase (p # ps)"
      by blast
    from sr(2) obtain s' where s: "s = c # s'"
      using sr(1) by (cases s) (auto simp add: toUpperCase_def)
    with sr have "toUpperCaseChar c = toUpperCaseChar p" "cs = s' @ r"
      "toUpperCase s' = toUpperCase ps"
      by (auto simp add: toUpperCase_def)
    with 3 show "startsWithCI (c # cs) (p # ps)"
      by auto
  qed
qed

lemma testCI_iff:
  "testCI p s \<longleftrightarrow> (\<exists>a m r. s = a @ m @ r \<and> toUpperCase m = toUpperCase p)"
proof -
  have "testCI p s \<longleftrightarrow> (\<exists>t. suffix t s \<and> startsWithCI t p)"
    by (auto simp add: testCI_def search_None_iff matchLiteralCI_def split: if_splits)
  then show ?thesis
    by (auto simp add: startsWithCI_iff suffix_def)
qed

lemma length_toUpperCase [simp]: "length (toUpperCase s) = length s"
  by (simp add: toUpperCase_def)

subsection \<open>Auxiliary facts about validate\<close>



subsection \<open>The constructor\<close>

text \<open>
  Claim C10. The constructor fills every key that its argument lacks with a fixed default,
  namely allowedOperations = [SELECT], allowedTables = [], restrictedColumns = [],
  maxRowLimit = 1000, requireUserContext = true and enableRowLevelSecurity = true, and every
  key that the argument has keeps the argument's value. Without any configuration, a
  validation without a user context is refused for that reason, and a query with a user
  context gets the error that its operation is not allowed exactly when the operation is
  not SELECT.
\<close>

theorem constructor_defaults:
  "SecurityValidator None =
     \<lparr> allowedOperations = Value [SELECT], allowedTables = Value [],
       restrictedColumns = Value [], maxRowLimit = Value 1000,
       requireUserContext = Value True, enableRowLevelSecurity = Value True,
       customValidator = Absent \<rparr>
   \<and> allowedOperations (SecurityValidator (Some c)) =
       (if allowedOperations c = Absent then Value [SELECT] else allowedOperations c)
   \<and> allowedTables (SecurityValidator (Some c)) =
       (if allowedTables c = Absent then Value [] else allowedTables c)
   \<and> restrictedColumns (SecurityValidator (Some c)) =
       (if restrictedColumns c = Absent then Value [] else restrictedColumns c)
   \<and> maxRowLimit (SecurityValidator (Some c)) =
       (if maxRowLimit c = Absent then Value 1000 else maxRowLimit c)
   \<and> requireUserContext (SecurityValidator (Some c)) =
       (if requireUserContext c = Absent then Value True else requireUserContext c)
   \<and> enableRowLevelSecurity (SecurityValidator (Some c)) =
       (if enableRowLevelSecurity c = Absent then Value True else enableRowLevelSecurity c)
   \<and> customValidator (SecurityValidator (Some c)) = customValidator c
   \<and> validate (SecurityValidator None) query None =
       Inr \<lparr> valid = False, errors = [''User context is required but not provided''],
             warnings = [] \<rparr>
   \<and> (detectOperation query = Some operation \<longrightarrow>
        (\<exists>r. validate (SecurityValidator None) query (Some u) = Inr r \<and>
           ((''Operation '' @ operationName operation
               @ '' is not allowed. Allowed operations: SELECT'') \<in> set (errors r)
            \<longleftrightarrow> operation \<noteq> SELECT)))"
proof -
  have fields: "SecurityValidator None =
     \<lparr> allowedOperations = Value [SELECT], allowedTables = Value [],
       restrictedColumns = Value [], maxRowLimit = Value 1000,
       requireUserContext = Value True, enableRowLevelSecurity = Value True,
       customValidator = Absent \<rparr>"
    by (simp add: SecurityValidator_def emptyConfig_def spread_def)
  have merged:
    "allowedOperations (SecurityValidator (Some c)) =
       (if allowedOperations c = Absent then Value [SELECT] else allowedOperations c)"
    "allowedTables (SecurityValidator (Some c)) =
       (if allowedTables c = Absent then Value [] else allowedTables c)"
    "restrictedColumns (SecurityValidator (Some c)) =
       (if restrictedColumns c = Absent then Value [] else restrictedColumns c)"
    "maxRowLimit (SecurityValidator (Some c)) =
       (if maxRowLimit c = Absent then Value 1000 else maxRowLimit c)"
    "requireUserContext (SecurityValidator (Some c)) =
       (if requireUserContext c = Absent then Value True else requireUserContext c)"
    "enableRowLevelSecurity (SecurityValidator (Some c)) =
       (if enableRowLevelSecurity c = Absent then Value True else enableRowLevelSecurity c)"
    "customValidator (SecurityValidator (Some c)) = customValidator c"
    by (simp_all add: SecurityValidator_def spread_def split: field.splits)
  have refused: "validate (SecurityValidator None) query None =
       Inr \<lparr> valid = False, errors = [''User context is required but not provided''],
             warnings = [] \<rparr>"
    by (simp add: validate_def validate_run_def fields)
  have only_select:
    "\<exists>r. validate (SecurityValidator None) query (Some u) = Inr r \<and>
       ((''Operation '' @ operationName operation
           @ '' is not allowed. Allowed operations: SELECT'') \<in> set (errors r)
        \<longleftrightarrow> operation \<noteq> SELECT)"
    if "detectOperation query = Some operation"
    using that
    by (cases operation)
       (auto simp add: validate_def validate_run_def fields operationCheck_def
          dangerousCheck_def restrictedCheck_def tableCheck_def rowLimitCheck_def
          customCheck_def findRestrictedColumns_def Let_def
          split: option.splits prod.splits if_splits)
  from fields merged refused only_select show ?thesis
    by blast
qed

theorem constructor_defaults_witness:
  "detectOperation ''INSERT INTO users VALUES (1)'' = Some INSERT
   \<and> maxRowLimit (SecurityValidator (Some (emptyConfig \<lparr> maxRowLimit := Value 50 \<rparr>))) = Value 50
   \<and> requireUserContext (SecurityValidator (Some (emptyConfig \<lparr> maxRowLimit := Value 50 \<rparr>)))
       = Value True
   \<and> (\<exists>r. validate (SecurityValidator None) ''INSERT INTO users VALUES (1)''
              (Some \<lparr> userId = NumberId 123, role = ''user'', permissions = None \<rparr>) = Inr r
          \<and> ''Operation INSERT is not allowed. Allowed operations: SELECT'' \<in> set (errors r))"
proof -
  have op: "detectOperation ''INSERT INTO users VALUES (1)'' = Some INSERT"
    by code_simp
  note inst = constructor_defaults [of "emptyConfig \<lparr> maxRowLimit := Value 50 \<rparr>"
      "''INSERT INTO users VALUES (1)''" INSERT
      "\<lparr> userId = NumberId 123, role = ''user'', permissions = None \<rparr>"]
  from inst have lim:
    "maxRowLimit (SecurityValidator (Some (emptyConfig \<lparr> maxRowLimit := Value 50 \<rparr>))) = Value 50"
    by (simp add: emptyConfig_def)
  from inst have req:
    "requireUserContext (SecurityValidator (Some (emptyConfig \<lparr> maxRowLimit := Value 50 \<rparr>)))
       = Value True"
    by (simp add: emptyConfig_def)
  from inst op obtain r where
    "validate (SecurityValidator None) ''INSERT INTO users VALUES (1)''
       (Some \<lparr> userId = NumberId 123, role = ''user'', permissions = None \<rparr>) = Inr r"
    and "(''Operation '' @ operationName INSERT
            @ '' is not allowed. Allowed operations: SELECT'') \<in> set (errors r)"
    by auto
  then have "\<exists>r. validate (SecurityValidator None) ''INSERT INTO users VALUES (1)''
              (Some \<lparr> userId = NumberId 123, role = ''user'', permissions = None \<rparr>) = Inr r
          \<and> ''Operation INSERT is not allowed. Allowed operations: SELECT'' \<in> set (errors r)"
    by auto
  with op lim req show ?thesis
    by blast
qed

subsection \<open>validate: the two early returns\<close>

text \<open>
  Claim C3. If the uppercased, trimmed query starts with none of SELECT, INSERT, UPDATE and
  DELETE, and a user context is given whenever requireUserContext holds, then \<open>validate\<close>
  returns at once: the result is invalid, its only error is that the operation could not be
  determined, it has no warning, and the custom validator has not been called. No error of
  a later check is in the result.
\<close>

theorem validate_unknown_operation:
  assumes "\<not> startsWith (toUpperCase (trim query)) ''SELECT''"
    and "\<not> startsWith (toUpperCase (trim query)) ''INSERT''"
    and "\<not> startsWith (toUpperCase (trim query)) ''UPDATE''"
    and "\<not> startsWith (toUpperCase (trim query)) ''DELETE''"
    and "getField (requireUserContext cfg) = Some True \<longrightarrow> userContext \<noteq> None"
  shows "validate_run cfg query userContext =
           (Inr \<lparr> valid = False, errors = [''Could not determine query operation''],
                  warnings = [] \<rparr>, [])"
  using assms by (auto simp add: validate_run_def detectOperation_def Let_def)

theorem validate_unknown_operation_witness:
  "\<not> startsWith (toUpperCase (trim ''DROP TABLE users'')) ''SELECT''
   \<and> \<not> startsWith (toUpperCase (trim ''DROP TABLE users'')) ''INSERT''
   \<and> \<not> startsWith (toUpperCase (trim ''DROP TABLE users'')) ''UPDATE''
   \<and> \<not> startsWith (toUpperCase (trim ''DROP TABLE users'')) ''DELETE''
   \<and> validate_run
         (SecurityValidator (Some (emptyConfig \<lparr> requireUserContext := Value False,
            restrictedColumns := Value [''users''] \<rparr>)))
         ''DROP TABLE users'' None =
       (Inr \<lparr> valid = False, errors = [''Could not determine query operation''],
              warnings = [] \<rparr>, [])"
proof -
  have s: "\<not> startsWith (toUpperCase (trim ''DROP TABLE users'')) ''SELECT''"
    and i: "\<not> startsWith (toUpperCase (trim ''DROP TABLE users'')) ''INSERT''"
    and u: "\<not> startsWith (toUpperCase (trim ''DROP TABLE users'')) ''UPDATE''"
    and d: "\<not> startsWith (toUpperCase (trim ''DROP TABLE users'')) ''DELETE''"
    by code_simp+
  have c: "getField (requireUserContext
             (SecurityValidator (Some (emptyConfig \<lparr> requireUserContext := Value False,
                restrictedColumns := Value [''users''] \<rparr>)))) = Some True
           \<longrightarrow> (None :: UserContext option) \<noteq> None"
    by (simp add: SecurityValidator_def emptyConfig_def spread_def)
  from s i u d validate_unknown_operation [OF s i u d c] show ?thesis
    by blast
qed

subsection \<open>validate: dangerous patterns\<close>

text \<open>
  Claim C2. The claim says that \<open>validate\<close> reports the pattern of multiple statements for
  every query with a semicolon that is not at the very end of the trimmed query. The code
  tests instead that the query has a semicolon and that the trimmed query does not end
  with one, so a second statement that is itself closed by a semicolon goes unreported:
  the query below has a semicolon in the middle, no dangerous pattern is found in it, and
  it is valid. The query of the claim's example, without the last semicolon, is reported.
\<close>

theorem validate_multiple_statements_missed:
  "includesStr ''SELECT 1; DELETE FROM users;'' '';''
   \<and> detectDangerousPatterns ''SELECT 1; DELETE FROM users;'' = []
   \<and> validate
         (SecurityValidator (Some (emptyConfig \<lparr> allowedOperations := Value [SELECT],
            requireUserContext := Value False \<rparr>)))
         ''SELECT 1; DELETE FROM users;'' None =
       Inr \<lparr> valid = True, errors = [],
             warnings = [''Query does not have a LIMIT clause. ''
                         @ ''Maximum 1000 rows will be enforced.''] \<rparr>
   \<and> validate
         (SecurityValidator (Some (emptyConfig \<lparr> allowedOperations := Value [SELECT],
            requireUserContext := Value False \<rparr>)))
         ''SELECT * FROM users; DROP TABLE users'' None =
       Inr \<lparr> valid = False,
             errors = [''Query contains dangerous patterns: Multiple statements detected, DROP''],
             warnings = [''Query does not have a LIMIT clause. ''
                         @ ''Maximum 1000 rows will be enforced.''] \<rparr>"
  by code_simp

subsection \<open>validate: the custom validator\<close>

text \<open>
  What \<open>validate\<close> does with a custom validator, once the operation of the query is
  recognised: it calls the validator once, with the query and the user context; a false
  answer and a thrown value with a readable message each add an error to the result; a
  thrown \<^verbatim>\<open>null\<close> or \<^verbatim>\<open>undefined\<close> makes the handler fail, and \<open>validate\<close> with it.
\<close>

lemma custom_validator_outcomes:
  assumes "detectOperation query = Some operation"
    and "getField (requireUserContext cfg) = Some True \<longrightarrow> userContext \<noteq> None"
    and "getField (customValidator cfg) = Some cv"
  shows "snd (validate_run cfg query userContext) = [(query, userContext)]"
    and "cv query userContext = Resolves False \<Longrightarrow>
           \<exists>r. validate cfg query userContext = Inr r \<and> \<not> valid r
             \<and> ''Custom validation failed'' \<in> set (errors r)"
    and "cv query userContext = Rejects (Thrown m) \<Longrightarrow>
           \<exists>r. validate cfg query userContext = Inr r \<and> \<not> valid r
             \<and> (''Custom validation error: '' @ m) \<in> set (errors r)"
    and "cv query userContext = Rejects ThrownNullish \<Longrightarrow>
           validate cfg query userContext = Inl TypeError"
  using assms
  by (auto simp add: validate_def validate_run_def customCheck_def Let_def
      split: prod.splits outcome.splits thrown.splits)

text \<open>
  Claim C6. The claim says that no failure thrown inside the custom validator leaves
  \<open>validate\<close>. At a validator that throws \<^verbatim>\<open>null\<close> the code does otherwise: the handler reads
  \<^verbatim>\<open>error.message\<close> of \<^verbatim>\<open>null\<close>, which is a TypeError, and \<open>validate\<close> ends with that fault
  instead of a result.
\<close>

theorem validate_custom_validator_throws_null:
  "validate
     (SecurityValidator (Some (emptyConfig \<lparr> allowedOperations := Value [SELECT],
        customValidator := Value (\<lambda>query userContext. Rejects ThrownNullish) \<rparr>)))
     ''SELECT * FROM users''
     (Some \<lparr> userId = NumberId 123, role = ''user'', permissions = None \<rparr>) = Inl TypeError"
  by code_simp

subsection \<open>validate: the row limit\<close>










subsection \<open>addLimitIfMissing\<close>

lemma matchLimit_literal:
  assumes "isDigit d"
  shows "matchLimit (''LIMIT '' @ d # rest) \<noteq> None"
  using assms digit_not_space [OF assms]
  by (simp add: matchLimit_def matchLiteralCI_def isWhiteSpace_def)

lemma search_limit_appended: "search matchLimit (q @ '' LIMIT '' @ natToString n) \<noteq> None"
proof -
  obtain d rest where n: "natToString n = d # rest" and d: "isDigit d"
    using natToString_digit [of n] by (cases "natToString n") auto
  have "search matchLimit ((q @ '' '') @ (''LIMIT '' @ d # rest)) \<noteq> None"
    by (rule search_found) (rule matchLimit_literal [OF d])
  then show ?thesis by (simp add: n)
qed

text \<open>
  Claim C8, as amended. For every query and every integer limit \<open>n\<close> that is not negative
  (and below \<open>2 ^ 53\<close>, where the model prints a number as the source does), applying
  \<open>addLimitIfMissing\<close> twice gives what applying it once gives; and the function appends
  the clause exactly when \<^verbatim>\<open>/LIMIT\s+\d+/i\<close> matches nowhere in the query, and returns the
  query unchanged otherwise.
\<close>

theorem addLimitIfMissing_idempotent:
  assumes "0 \<le> n" and "n < 2 ^ 53"
  shows "addLimitIfMissing (addLimitIfMissing query n) n = addLimitIfMissing query n
    \<and> addLimitIfMissing query n =
        (if search matchLimit query = None
         then query @ '' LIMIT '' @ numberToString n else query)"
  using assms search_limit_appended [of query "nat n"]
  by (auto simp add: addLimitIfMissing_def numberToString_def)

theorem addLimitIfMissing_idempotent_witness:
  "(0 :: int) \<le> 100 \<and> (100 :: int) < 2 ^ 53
   \<and> addLimitIfMissing (addLimitIfMissing ''SELECT * FROM users'' 100) 100
       = ''SELECT * FROM users LIMIT 100''
   \<and> addLimitIfMissing ''SELECT * FROM users'' 100 = ''SELECT * FROM users LIMIT 100''"
proof -
  have pos: "(0 :: int) \<le> 100" and safe: "(100 :: int) < 2 ^ 53"
    by simp_all
  have once: "addLimitIfMissing ''SELECT * FROM users'' 100 = ''SELECT * FROM users LIMIT 100''"
    by code_simp
  have twice: "addLimitIfMissing (addLimitIfMissing ''SELECT * FROM users'' 100) 100
                 = addLimitIfMissing ''SELECT * FROM users'' 100"
    using addLimitIfMissing_idempotent [OF pos safe, of "''SELECT * FROM users''"]
    by (rule conjunct1)
  from twice once
  have "addLimitIfMissing (addLimitIfMissing ''SELECT * FROM users'' 100) 100
          = ''SELECT * FROM users LIMIT 100''"
    by (rule trans)
  with pos safe once show ?thesis
    by blast
qed

text \<open>
  The claim as it is written, for every limit, fails at a negative one: the sign stands
  between the white space and the digits, the appended clause is not recognised, and the
  second application appends it again.
\<close>

theorem addLimitIfMissing_idempotent_counterexample:
  "addLimitIfMissing (addLimitIfMissing ''SELECT 1'' (- 1)) (- 1) = ''SELECT 1 LIMIT -1 LIMIT -1''
   \<and> addLimitIfMissing ''SELECT 1'' (- 1) = ''SELECT 1 LIMIT -1''"
  by code_simp

subsection \<open>validateSQLSyntax\<close>

lemma parenDepth_Nil [simp]: "parenDepth [] = 0"
  by (simp add: parenDepth_def countChar_def)

lemma parenDepth_Cons:
  "parenDepth (c # cs) =
     (if c = CHR ''('' then 1 else if c = CHR '')'' then - 1 else 0) + parenDepth cs"
  by (simp add: parenDepth_def countChar_def)

lemma all_upto_Suc:
  "(\<forall>k. 0 < k \<and> k \<le> Suc n \<longrightarrow> P k) \<longleftrightarrow> P 1 \<and> (\<forall>j. 0 < j \<and> j \<le> n \<longrightarrow> P (Suc j))"
proof
  assume l: "\<forall>k. 0 < k \<and> k \<le> Suc n \<longrightarrow> P k"
  then show "P 1 \<and> (\<forall>j. 0 < j \<and> j \<le> n \<longrightarrow> P (Suc j))" by auto
next
  assume r: "P 1 \<and> (\<forall>j. 0 < j \<and> j \<le> n \<longrightarrow> P (Suc j))"
  show "\<forall>k. 0 < k \<and> k \<le> Suc n \<longrightarrow> P k"
  proof (intro allI impI)
    fix k assume k: "0 < k \<and> k \<le> Suc n"
    then obtain j where "k = Suc j" by (cases k) auto
    with k r show "P k" by (cases j) auto
  qed
qed

lemma parenScan_eq:
  "parenScan n s =
     (if (\<forall>k. 0 < k \<and> k \<le> length s \<longrightarrow> 0 \<le> n + parenDepth (take k s))
      then Some (n + parenDepth s) else None)"
proof (induction s arbitrary: n)
  case Nil
  then show ?case by simp
next
  case (Cons c cs)
  let ?d = "(if c = CHR ''('' then 1 else if c = CHR '')'' then - 1 else 0) :: int"
  have step: "parenScan n (c # cs) = (if n + ?d < 0 then None else parenScan (n + ?d) cs)"
    by (simp add: Let_def)
  have quant: "(\<forall>k. 0 < k \<and> k \<le> length (c # cs) \<longrightarrow> 0 \<le> n + parenDepth (take k (c # cs)))
      \<longleftrightarrow> 0 \<le> n + ?d \<and> (\<forall>j. 0 < j \<and> j \<le> length cs \<longrightarrow> 0 \<le> (n + ?d) + parenDepth (take j cs))"
    by (simp add: all_upto_Suc [where n = "length cs"] parenDepth_Cons add.assoc)
  show ?case
    unfolding step quant Cons.IH [of "n + ?d"]
    by (auto simp add: parenDepth_Cons)
qed

lemma balancedParens_scan: "balancedParens s \<longleftrightarrow> parenScan 0 s = Some 0"
proof -
  have "list_all (\<lambda>k. 0 \<le> parenDepth (take k s)) [0..<Suc (length s)]
        \<longleftrightarrow> (\<forall>k. 0 < k \<and> k \<le> length s \<longrightarrow> 0 \<le> parenDepth (take k s))"
  proof
    assume "list_all (\<lambda>k. 0 \<le> parenDepth (take k s)) [0..<Suc (length s)]"
    then show "\<forall>k. 0 < k \<and> k \<le> length s \<longrightarrow> 0 \<le> parenDepth (take k s)"
      by (auto simp add: list_all_iff simp del: upt_Suc)
  next
    assume a: "\<forall>k. 0 < k \<and> k \<le> length s \<longrightarrow> 0 \<le> parenDepth (take k s)"
    have "0 \<le> parenDepth (take k s)" if "k < Suc (length s)" for k
      using that a by (cases k) auto
    then show "list_all (\<lambda>k. 0 \<le> parenDepth (take k s)) [0..<Suc (length s)]"
      by (auto simp add: list_all_iff simp del: upt_Suc)
  qed
  then show ?thesis
    by (auto simp add: balancedParens_def parenScan_eq [of 0 s])
qed

lemma validStart_code:
  "validStart query \<longleftrightarrow>
     list_ex (\<lambda>keyword. startsWith (toUpperCase (trim query)) keyword) validStarts"
  by (simp add: validStart_def validStarts_def startsWith_prefix)

lemma join_validStarts: "join '', '' validStarts = ''SELECT, INSERT, UPDATE, DELETE, WITH''"
  by (simp add: validStarts_def)

text \<open>
  Claim C4. \<open>validateSQLSyntax\<close> accepts a query exactly when its uppercased, trimmed text
  begins with SELECT, INSERT, UPDATE, DELETE or WITH, its parentheses are balanced (the
  running count is never negative and is zero at the end) and it has an even number of
  single quotes and an even number of double quotes. A rejection names the first of these
  conditions that fails: the start keyword, the parentheses, the single quotes, the double
  quotes.
\<close>

theorem validateSQLSyntax_conditions:
  "(validateSQLSyntax query = Valid \<longleftrightarrow>
      validStart query \<and> balancedParens query
      \<and> even (countChar (CHR 0x27) query) \<and> even (countChar (CHR 0x22) query))
   \<and> (\<not> validStart query \<longrightarrow>
        validateSQLSyntax query =
          Invalid ''Query must start with one of: SELECT, INSERT, UPDATE, DELETE, WITH'')
   \<and> (validStart query \<and> \<not> balancedParens query \<longrightarrow>
        validateSQLSyntax query = Invalid ''Unbalanced parentheses'')
   \<and> (validStart query \<and> balancedParens query \<and> odd (countChar (CHR 0x27) query) \<longrightarrow>
        validateSQLSyntax query = Invalid ''Unbalanced single quotes'')
   \<and> (validStart query \<and> balancedParens query \<and> even (countChar (CHR 0x27) query)
        \<and> odd (countChar (CHR 0x22) query) \<longrightarrow>
        validateSQLSyntax query = Invalid ''Unbalanced double quotes'')"
  unfolding validateSQLSyntax_def Let_def validStart_code [symmetric] join_validStarts
    balancedParens_scan
  by (auto simp add: even_iff_mod_2_eq_zero odd_iff_mod_2_eq_one split: option.splits)


theorem validateSQLSyntax_conditions_witness:
  "validStart ''SELECT * FROM users WHERE (id = 1''
   \<and> \<not> balancedParens ''SELECT * FROM users WHERE (id = 1''
   \<and> validateSQLSyntax ''SELECT * FROM users WHERE (id = 1'' = Invalid ''Unbalanced parentheses''
   \<and> \<not> validStart ''INVALID QUERY''
   \<and> validateSQLSyntax ''INVALID QUERY'' =
       Invalid ''Query must start with one of: SELECT, INSERT, UPDATE, DELETE, WITH''
   \<and> validateSQLSyntax ''INSERT INTO users (name) VALUES ('John')'' = Valid
   \<and> balancedParens ''INSERT INTO users (name) VALUES ('John')''"
proof -
  have start: "validStart ''SELECT * FROM users WHERE (id = 1''"
    by code_simp
  have open_paren: "\<not> balancedParens ''SELECT * FROM users WHERE (id = 1''"
    by code_simp
  have no_start: "\<not> validStart ''INVALID QUERY''"
    by code_simp
  have accepted: "validateSQLSyntax ''INSERT INTO users (name) VALUES ('John')'' = Valid"
    by code_simp
  from validateSQLSyntax_conditions [of "''SELECT * FROM users WHERE (id = 1''"]
    start open_paren
  have first: "validateSQLSyntax ''SELECT * FROM users WHERE (id = 1''
                 = Invalid ''Unbalanced parentheses''"
    by blast
  from validateSQLSyntax_conditions [of "''INVALID QUERY''"] no_start
  have second: "validateSQLSyntax ''INVALID QUERY'' =
       Invalid ''Query must start with one of: SELECT, INSERT, UPDATE, DELETE, WITH''"
    by blast
  from validateSQLSyntax_conditions [of "''INSERT INTO users (name) VALUES ('John')''"]
    accepted
  have third: "balancedParens ''INSERT INTO users (name) VALUES ('John')''"
    by blast
  from start open_paren first no_start second accepted third show ?thesis
    by blast
qed

subsection \<open>estimateComplexity\<close>

lemma upper_select: "toUpperCase ''select'' = ''SELECT''"
  by code_simp

lemma matchSelectSelect_iff:
  "matchSelectSelect t \<noteq> None \<longleftrightarrow>
     (\<exists>s1 b s2 c. t = s1 @ b @ s2 @ c \<and> toUpperCase s1 = ''SELECT'' \<and> toUpperCase s2 = ''SELECT'')"
proof
  assume "matchSelectSelect t \<noteq> None"
  then have st: "startsWithCI t ''select''"
    and te: "testCI ''select'' (drop (length ''select'') t)"
    by (auto simp add: matchSelectSelect_def matchLiteralCI_def split: if_splits)
  from st obtain s1 r where s1: "t = s1 @ r" "toUpperCase s1 = ''SELECT''"
    by (auto simp add: startsWithCI_iff upper_select)
  from s1(2) have "length s1 = length ''select''"
    by (metis length_toUpperCase upper_select)
  with s1 have r: "drop (length ''select'') t = r"
    by simp
  from te r obtain b s2 c where "r = b @ s2 @ c" "toUpperCase s2 = ''SELECT''"
    by (auto simp add: testCI_iff upper_select)
  with s1 show "\<exists>s1 b s2 c. t = s1 @ b @ s2 @ c
      \<and> toUpperCase s1 = ''SELECT'' \<and> toUpperCase s2 = ''SELECT''"
    by blast
next
  assume "\<exists>s1 b s2 c. t = s1 @ b @ s2 @ c
      \<and> toUpperCase s1 = ''SELECT'' \<and> toUpperCase s2 = ''SELECT''"
  then obtain s1 b s2 c where d: "t = s1 @ b @ s2 @ c"
    "toUpperCase s1 = ''SELECT''" "toUpperCase s2 = ''SELECT''"
    by blast
  from d(2) have "length s1 = length ''select''"
    by (metis length_toUpperCase upper_select)
  with d have r: "drop (length ''select'') t = b @ s2 @ c"
    by simp
  from d have "startsWithCI t ''select''"
    unfolding startsWithCI_iff upper_select by blast
  moreover from r d(3) have "testCI ''select'' (drop (length ''select'') t)"
    unfolding testCI_iff upper_select by blast
  ultimately show "matchSelectSelect t \<noteq> None"
    by (simp add: matchSelectSelect_def matchLiteralCI_def)
qed

lemma twoSelects_search: "search matchSelectSelect query \<noteq> None \<longleftrightarrow> twoSelects query"
proof -
  have "search matchSelectSelect query \<noteq> None
        \<longleftrightarrow> (\<exists>t. suffix t query \<and> matchSelectSelect t \<noteq> None)"
    by (simp add: search_None_iff)
  then show ?thesis
    unfolding matchSelectSelect_iff twoSelects_def suffix_def by blast
qed

text \<open>
  The global match of join finds every occurrence: no occurrence of join starts inside
  another one.
\<close>

lemma occurrences_none:
  "(\<forall>t. suffix t s \<longrightarrow> \<not> prefix p t) \<Longrightarrow> occurrences p s = 0"
proof (induction s)
  case Nil
  then show ?case by auto
next
  case (Cons c cs)
  then show ?case
    by (simp add: suffix_Cons)
qed

lemma occurrences_skip:
  "(\<forall>i < length b. \<not> prefix p (drop i (b @ t))) \<Longrightarrow> occurrences p (b @ t) = occurrences p t"
proof (induction b)
  case Nil
  then show ?case by simp
next
  case (Cons c b)
  from Cons.prems have "\<not> prefix p (c # b @ t)"
    by auto
  moreover from Cons.prems have "\<forall>i < length b. \<not> prefix p (drop i (b @ t))"
    by fastforce
  ultimately show ?case
    using Cons.IH by simp
qed

lemma occurrences_join: "occurrences ''join'' (''join'' @ r) = Suc (occurrences ''join'' r)"
  by simp

lemma joins_counted:
  "length (matchAll (matchLiteral ''join'') s) = occurrences ''join'' s"
proof (induction s rule: measure_induct_rule [where f = length])
  case (less s)
  show ?case
  proof (cases "search (matchLiteral ''join'') s")
    case None
    then have "\<forall>t. suffix t s \<longrightarrow> \<not> prefix ''join'' t"
      by (simp add: search_None_iff matchLiteral_None)
    then have "occurrences ''join'' s = 0"
      by (rule occurrences_none)
    with None show ?thesis
      by (simp add: matchAll.simps [of _ s])
  next
    case (Some found)
    then obtain b mt r where f: "search (matchLiteral ''join'') s = Some (b, (mt, r))"
      by (cases found) auto
    from search_SomeD [OF f] obtain t where
      t: "s = b @ t" "matchLiteral ''join'' t = Some (mt, r)"
      "\<forall>i < length b. matchLiteral ''join'' (drop i s) = None"
      by blast
    then have mt: "mt = ''join''" and s: "s = b @ ''join'' @ r"
      by (simp_all add: matchLiteral_Some)
    from t(3) s have "\<forall>i < length b. \<not> prefix ''join'' (drop i (b @ ''join'' @ r))"
      by (simp add: matchLiteral_None)
    then have "occurrences ''join'' s = occurrences ''join'' (''join'' @ r)"
      unfolding s by (rule occurrences_skip)
    then have occ: "occurrences ''join'' s = Suc (occurrences ''join'' r)"
      by (simp only: occurrences_join)
    have "length r < length s"
      by (simp add: s)
    then have ih: "length (matchAll (matchLiteral ''join'') r) = occurrences ''join'' r"
      by (rule less.IH)
    have "drop (length b + max 1 (length mt)) s = r"
      by (simp add: s mt)
    moreover have "s \<noteq> []"
      by (simp add: s)
    ultimately have "matchAll (matchLiteral ''join'') s = mt # matchAll (matchLiteral ''join'') r"
      using f by (simp add: matchAll.simps [of _ s])
    with ih occ show ?thesis
      by simp
  qed
qed

text \<open>
  Claim C9, as amended. The complexity is the tier of an additive score over the query:
  1 if the lowercased text contains join, 2 if the lowercased text contains the word
  subquery or the text contains SELECT twice (in any case of the letters), 1 for group by,
  1 for having, 2 for union, and 2 more if join occurs more than twice in the lowercased
  text; score 0 is low, 1 and 2 are medium, 3 and more are high.
\<close>

theorem estimateComplexity_score:
  "estimateComplexity query =
     (let n = toLowerCase query;
          score = (if sublist ''join'' n then 1 else 0)
                + (if sublist ''subquery'' n \<or> twoSelects query then 2 else 0)
                + (if sublist ''group by'' n then 1 else 0)
                + (if sublist ''having'' n then 1 else 0)
                + (if sublist ''union'' n then 2 else 0)
                + (if occurrences ''join'' n > 2 then 2 else (0 :: nat))
      in if score = 0 then Low else if score \<le> 2 then Medium else High)"
  unfolding estimateComplexity_def Let_def includesStr_sublist twoSelects_search joins_counted
  by simp

theorem estimateComplexity_score_witness:
  "estimateComplexity ''SELECT * FROM a'' = Low
   \<and> \<not> twoSelects ''SELECT * FROM a''
   \<and> \<not> sublist ''join'' (toLowerCase ''SELECT * FROM a'')"
proof -
  have low: "estimateComplexity ''SELECT * FROM a'' = Low"
    by code_simp
  from estimateComplexity_score [of "''SELECT * FROM a''"] low
  have "\<not> twoSelects ''SELECT * FROM a''"
    and "\<not> sublist ''join'' (toLowerCase ''SELECT * FROM a'')"
    by (auto simp add: Let_def split: if_splits)
  with low show ?thesis
    by blast
qed

text \<open>
  The claim as it is written has the 2 for a nested SELECT only. The code gives it also to
  a query that has the word subquery and one SELECT: none of the indicators of the claim
  is present in the query below, and its tier is medium, not low.
\<close>

theorem estimateComplexity_score_counterexample:
  "estimateComplexity ''SELECT * FROM subquery_log'' = Medium
   \<and> search matchSelectSelect ''SELECT * FROM subquery_log'' = None
   \<and> \<not> includesStr (toLowerCase ''SELECT * FROM subquery_log'') ''join''
   \<and> \<not> includesStr (toLowerCase ''SELECT * FROM subquery_log'') ''group by''
   \<and> \<not> includesStr (toLowerCase ''SELECT * FROM subquery_log'') ''having''
   \<and> \<not> includesStr (toLowerCase ''SELECT * FROM subquery_log'') ''union''
   \<and> matchAll (matchLiteral ''join'') (toLowerCase ''SELECT * FROM subquery_log'') = []"
  by code_simp

subsection \<open>addRowLevelSecurity\<close>

text \<open>
  Claim C1. The claim says that a user identifier that is a string is inlined as a
  single-quoted literal with its single quotes doubled, as \<open>escapeValue\<close> does. The code
  puts the identifier between single quotes as it is and never calls \<open>escapeValue\<close>: at the
  identifier below the quote inside it ends the literal, the rest of the identifier
  becomes part of the condition, and \<open>validate\<close> accepts the rewritten query.
\<close>

theorem addRowLevelSecurity_unescaped_quote:
  "addRowLevelSecurity (SecurityValidator None) ''SELECT * FROM orders''
       (Some \<lparr> userId = StringId ''x' OR '1'='1'', role = ''user'', permissions = None \<rparr>)
     = ''SELECT * FROM orders WHERE user_id = 'x' OR '1'='1'' @ [CHR 0x27]
   \<and> escapeValue ''x' OR '1'='1''
     = ''x'' @ [CHR 0x27, CHR 0x27] @ '' OR '' @ [CHR 0x27, CHR 0x27] @ ''1''
         @ [CHR 0x27, CHR 0x27] @ ''='' @ [CHR 0x27, CHR 0x27] @ ''1''
   \<and> validate (SecurityValidator None)
         (''SELECT * FROM orders WHERE user_id = 'x' OR '1'='1'' @ [CHR 0x27])
         (Some \<lparr> userId = StringId ''x' OR '1'='1'', role = ''user'', permissions = None \<rparr>)
     = Inr \<lparr> valid = True, errors = [],
             warnings = [''Query does not have a LIMIT clause. ''
                         @ ''Maximum 1000 rows will be enforced.''] \<rparr>"
  by code_simp

text \<open>
  For the same reason the identifier reaches \<^verbatim>\<open>replace\<close> as replacement text when the
  query has ORDER BY or LIMIT, where a dollar sign in it is expanded.
\<close>

lemma addRowLevelSecurity_dollar_expanded:
  "addRowLevelSecurity (SecurityValidator None) ''SELECT * FROM orders ORDER BY id''
       (Some \<lparr> userId = StringId ''a$&b'', role = ''user'', permissions = None \<rparr>)
     = ''SELECT * FROM orders  WHERE user_id = 'aORDER BYb' ORDER BY id''"
  by code_simp

subsection \<open>extractFromMarkdown\<close>

lemma matchBlock_None: "matchBlock opening t = None \<longleftrightarrow> \<not> blockAt opening t"
proof (cases "matchLiteral opening t")
  case None
  then have "\<not> blockAt opening t"
    by (auto simp add: blockAt_def matchLiteral_None prefix_def)
  with None show ?thesis
    by (simp add: matchBlock_def)
next
  case (Some mr)
  then obtain r where r: "matchLiteral opening t = Some (opening, r)" "t = opening @ r"
    by (cases mr) (auto simp add: matchLiteral_Some)
  then show ?thesis
    by (auto simp add: matchBlock_def blockAt_def search_literal_None)
qed

lemma matchBlock_Some:
  "matchBlock opening t = Some body \<longleftrightarrow>
     (\<exists>c. t = opening @ body @ ''```'' @ c
        \<and> (\<forall>i < length body. \<not> prefix ''```'' (drop i (body @ ''```'' @ c))))"
proof
  assume a: "matchBlock opening t = Some body"
  then obtain r where r: "t = opening @ r"
    and "map_option fst (search (matchLiteral ''```'') r) = Some body"
    by (auto simp add: matchBlock_def matchLiteral_Some split: option.splits)
  then obtain m c where "search (matchLiteral ''```'') r = Some (body, (m, c))"
    by auto
  from search_SomeD [OF this] obtain t' where
    "r = body @ t'" "matchLiteral ''```'' t' = Some (m, c)"
    "\<forall>i < length body. matchLiteral ''```'' (drop i r) = None"
    by blast
  then have "r = body @ ''```'' @ c"
    and "\<forall>i < length body. \<not> prefix ''```'' (drop i (body @ ''```'' @ c))"
    by (auto simp add: matchLiteral_Some matchLiteral_None)
  with r show "\<exists>c. t = opening @ body @ ''```'' @ c
        \<and> (\<forall>i < length body. \<not> prefix ''```'' (drop i (body @ ''```'' @ c)))"
    by blast
next
  assume "\<exists>c. t = opening @ body @ ''```'' @ c
        \<and> (\<forall>i < length body. \<not> prefix ''```'' (drop i (body @ ''```'' @ c)))"
  then obtain c where t: "t = opening @ body @ ''```'' @ c"
    and first: "\<forall>i < length body. \<not> prefix ''```'' (drop i (body @ ''```'' @ c))"
    by blast
  have "matchLiteral ''```'' (''```'' @ c) = Some (''```'', c)"
    by (simp add: matchLiteral_Some)
  moreover from first
  have "\<forall>i < length body. matchLiteral ''```'' (drop i (body @ ''```'' @ c)) = None"
    by (simp add: matchLiteral_None)
  ultimately have "search (matchLiteral ''```'') (body @ ''```'' @ c) = Some (body, (''```'', c))"
    by (rule search_SomeI)
  moreover have "matchLiteral opening t = Some (opening, body @ ''```'' @ c)"
    by (simp add: matchLiteral_Some t)
  ultimately show "matchBlock opening t = Some body"
    by (simp add: matchBlock_def)
qed

lemma search_block_None: "search (matchBlock opening) text = None \<longleftrightarrow> \<not> hasBlock opening text"
  by (auto simp add: search_None_iff matchBlock_None hasBlock_def suffix_def)

lemma search_block_Some:
  "(\<exists>a. search (matchBlock opening) text = Some (a, body)) \<longleftrightarrow> firstBlock opening text body"
proof
  assume "\<exists>a. search (matchBlock opening) text = Some (a, body)"
  then obtain a where "search (matchBlock opening) text = Some (a, body)"
    by blast
  from search_SomeD [OF this] obtain t where
    t: "text = a @ t" "matchBlock opening t = Some body"
    "\<forall>i < length a. matchBlock opening (drop i text) = None"
    by blast
  from t(2) obtain c where "t = opening @ body @ ''```'' @ c"
    "\<forall>i < length body. \<not> prefix ''```'' (drop i (body @ ''```'' @ c))"
    unfolding matchBlock_Some by blast
  with t(1,3) show "firstBlock opening text body"
    unfolding firstBlock_def matchBlock_None by blast
next
  assume "firstBlock opening text body"
  then obtain a c where ac: "text = a @ opening @ body @ ''```'' @ c"
    "\<forall>i < length a. \<not> blockAt opening (drop i text)"
    "\<forall>i < length body. \<not> prefix ''```'' (drop i (body @ ''```'' @ c))"
    unfolding firstBlock_def by blast
  from ac(3) have "matchBlock opening (opening @ body @ ''```'' @ c) = Some body"
    unfolding matchBlock_Some by blast
  moreover from ac(1,2)
  have "\<forall>i < length a. matchBlock opening (drop i (a @ opening @ body @ ''```'' @ c)) = None"
    by (simp add: matchBlock_None)
  ultimately have "search (matchBlock opening) (a @ opening @ body @ ''```'' @ c) = Some (a, body)"
    by (rule search_SomeI)
  with ac(1) show "\<exists>a. search (matchBlock opening) text = Some (a, body)"
    by blast
qed

text \<open>
  Claim C7, as amended. For every text, \<open>extractFromMarkdown\<close> returns the trimmed interior
  of the first block that opens with three backquotes, the tag sql and a line feed, if the
  text has such a block; otherwise the trimmed interior of the first block that opens with
  three backquotes and a line feed (a fence without a tag), if the text has such a block;
  otherwise the text unchanged. A text that has a block has a first block, so the three
  cases cover every text.
\<close>

theorem extractFromMarkdown_blocks:
  "(firstBlock (''```sql'' @ [CHR 0x0A]) text body \<longrightarrow> extractFromMarkdown text = trim body)
   \<and> (\<not> hasBlock (''```sql'' @ [CHR 0x0A]) text \<and> firstBlock (''```'' @ [CHR 0x0A]) text body
        \<longrightarrow> extractFromMarkdown text = trim body)
   \<and> (\<not> hasBlock (''```sql'' @ [CHR 0x0A]) text \<and> \<not> hasBlock (''```'' @ [CHR 0x0A]) text
        \<longrightarrow> extractFromMarkdown text = text)
   \<and> (hasBlock opening text \<longrightarrow> (\<exists>b. firstBlock opening text b))"
proof -
  have sql: "extractFromMarkdown text = trim body"
    if "firstBlock (''```sql'' @ [CHR 0x0A]) text body"
  proof -
    from that obtain a where "search (matchBlock (''```sql'' @ [CHR 0x0A])) text = Some (a, body)"
      unfolding search_block_Some [symmetric] by blast
    then show ?thesis
      by (simp add: extractFromMarkdown_def del: search.simps)
  qed
  have plain: "extractFromMarkdown text = trim body"
    if "\<not> hasBlock (''```sql'' @ [CHR 0x0A]) text" and "firstBlock (''```'' @ [CHR 0x0A]) text body"
  proof -
    from that(1) have "search (matchBlock (''```sql'' @ [CHR 0x0A])) text = None"
      by (simp add: search_block_None del: search.simps)
    moreover from that(2) obtain a where
      "search (matchBlock (''```'' @ [CHR 0x0A])) text = Some (a, body)"
      unfolding search_block_Some [symmetric] by blast
    ultimately show ?thesis
      by (simp add: extractFromMarkdown_def del: search.simps)
  qed
  have none: "extractFromMarkdown text = text"
    if "\<not> hasBlock (''```sql'' @ [CHR 0x0A]) text" and "\<not> hasBlock (''```'' @ [CHR 0x0A]) text"
  proof -
    from that have "search (matchBlock (''```sql'' @ [CHR 0x0A])) text = None"
      and "search (matchBlock (''```'' @ [CHR 0x0A])) text = None"
      by (simp_all add: search_block_None del: search.simps)
    then show ?thesis
      by (simp add: extractFromMarkdown_def del: search.simps)
  qed
  have ex: "\<exists>b. firstBlock opening text b" if "hasBlock opening text"
  proof -
    from that have "search (matchBlock opening) text \<noteq> None"
      by (simp add: search_block_None del: search.simps)
    then obtain a b where "search (matchBlock opening) text = Some (a, b)"
      by auto
    then show ?thesis
      unfolding search_block_Some [symmetric] by blast
  qed
  from sql plain none ex show ?thesis
    by blast
qed

theorem extractFromMarkdown_blocks_witness:
  "firstBlock (''```sql'' @ [CHR 0x0A])
     (''```sql'' @ [CHR 0x0A] @ ''SELECT * FROM users'' @ [CHR 0x0A] @ ''```'')
     (''SELECT * FROM users'' @ [CHR 0x0A])
   \<and> extractFromMarkdown
         (''```sql'' @ [CHR 0x0A] @ ''SELECT * FROM users'' @ [CHR 0x0A] @ ''```'')
       = ''SELECT * FROM users''"
proof -
  let ?text = "''```sql'' @ [CHR 0x0A] @ ''SELECT * FROM users'' @ [CHR 0x0A] @ ''```''"
  let ?body = "''SELECT * FROM users'' @ [CHR 0x0A]"
  have found: "search (matchBlock (''```sql'' @ [CHR 0x0A])) ?text = Some ([], ?body)"
    by code_simp
  have "\<exists>a. search (matchBlock (''```sql'' @ [CHR 0x0A])) ?text = Some (a, ?body)"
    by (intro exI) (rule found)
  then have first: "firstBlock (''```sql'' @ [CHR 0x0A]) ?text ?body"
    by (simp only: search_block_Some)
  have "firstBlock (''```sql'' @ [CHR 0x0A]) ?text ?body
          \<longrightarrow> extractFromMarkdown ?text = trim ?body"
    using extractFromMarkdown_blocks [of ?text ?body] by (rule conjunct1)
  with first have "extractFromMarkdown ?text = trim ?body"
    by (rule rev_mp)
  moreover have "trim ?body = ''SELECT * FROM users''"
    by code_simp
  ultimately have "extractFromMarkdown ?text = ''SELECT * FROM users''"
    by (rule trans)
  with first show ?thesis
    by (rule conjI)
qed

text \<open>
  The claim as it is written takes, after the blocks tagged sql, the first fenced block
  whatever its tag. The second regular expression wants the line feed right after the
  three backquotes: a block tagged js is not taken, and the text comes back unchanged.
\<close>

theorem extractFromMarkdown_blocks_counterexample:
  "extractFromMarkdown (''```js'' @ [CHR 0x0A] @ ''SELECT 1'' @ [CHR 0x0A] @ ''```'')
     = ''```js'' @ [CHR 0x0A] @ ''SELECT 1'' @ [CHR 0x0A] @ ''```''"
  by code_simp

end
